theory Spec2Isabelle
  imports Main "HOL-Library.Multiset"
begin

section \<open>Qt value types used by KuduGrab.py\<close>

text \<open>
  The program is written against PyQt5.  The three Qt value classes it computes with
  (\<^verbatim>\<open>QPoint\<close>, \<^verbatim>\<open>QRect\<close>, \<^verbatim>\<open>QPixmap\<close>) are modelled here after their
  documented behaviour.  Coordinates are Python integers; Qt stores them as 32-bit ints,
  and every coordinate of a desktop is far from that range, so they are \<open>int\<close>.
\<close>

record qpoint =
  px :: int
  py :: int

text \<open>\<^verbatim>\<open>QPoint()\<close> is the point (0,0), and \<^verbatim>\<open>isNull\<close> is true exactly for it.\<close>

definition QPoint0 :: qpoint where
  "QPoint0 = \<lparr>px = 0, py = 0\<rparr>"

definition pt_isNull :: "qpoint \<Rightarrow> bool" where
  "pt_isNull p = (px p = 0 \<and> py p = 0)"

definition pt_add :: "qpoint \<Rightarrow> qpoint \<Rightarrow> qpoint" where
  "pt_add p q = \<lparr>px = px p + px q, py = py p + py q\<rparr>"

text \<open>
  A \<^verbatim>\<open>QRect\<close> stores its two corners; \<^verbatim>\<open>QRect(x, y, w, h)\<close> has the corners
  \<open>(x, y)\<close> and \<open>(x + w - 1, y + h - 1)\<close>, and \<^verbatim>\<open>QRect()\<close> is the null rectangle
  \<open>(0, 0, -1, -1)\<close>.
\<close>

record qrect =
  rx1 :: int
  ry1 :: int
  rx2 :: int
  ry2 :: int

definition QRect :: "int \<Rightarrow> int \<Rightarrow> int \<Rightarrow> int \<Rightarrow> qrect" where
  "QRect x y w h = \<lparr>rx1 = x, ry1 = y, rx2 = x + w - 1, ry2 = y + h - 1\<rparr>"

definition QRect0 :: qrect where
  "QRect0 = \<lparr>rx1 = 0, ry1 = 0, rx2 = - 1, ry2 = - 1\<rparr>"

definition r_width :: "qrect \<Rightarrow> int" where
  "r_width r = rx2 r - rx1 r + 1"

definition r_height :: "qrect \<Rightarrow> int" where
  "r_height r = ry2 r - ry1 r + 1"

definition r_isNull :: "qrect \<Rightarrow> bool" where
  "r_isNull r = (rx2 r = rx1 r - 1 \<and> ry2 r = ry1 r - 1)"

definition r_isEmpty :: "qrect \<Rightarrow> bool" where
  "r_isEmpty r = (rx1 r > rx2 r \<or> ry1 r > ry2 r)"

definition topLeft :: "qrect \<Rightarrow> qpoint" where
  "topLeft r = \<lparr>px = rx1 r, py = ry1 r\<rparr>"

definition bottomRight :: "qrect \<Rightarrow> qpoint" where
  "bottomRight r = \<lparr>px = rx2 r, py = ry2 r\<rparr>"

text \<open>
  The edges Qt computes with: a rectangle of negative width or height is read with its
  corners swapped (\<^verbatim>\<open>QRect::operator&\<close>, \<^verbatim>\<open>QRect::contains\<close>).
\<close>

definition r_left :: "qrect \<Rightarrow> int" where
  "r_left r = (if rx2 r - rx1 r + 1 < 0 then rx2 r else rx1 r)"

definition r_right :: "qrect \<Rightarrow> int" where
  "r_right r = (if rx2 r - rx1 r + 1 < 0 then rx1 r else rx2 r)"

definition r_top :: "qrect \<Rightarrow> int" where
  "r_top r = (if ry2 r - ry1 r + 1 < 0 then ry2 r else ry1 r)"

definition r_bottom :: "qrect \<Rightarrow> int" where
  "r_bottom r = (if ry2 r - ry1 r + 1 < 0 then ry1 r else ry2 r)"

text \<open>\<^verbatim>\<open>QRect.intersected\<close>: null when either side is null or the ranges miss each other.\<close>

definition intersected :: "qrect \<Rightarrow> qrect \<Rightarrow> qrect" where
  "intersected r s =
     (if r_isNull r \<or> r_isNull s then QRect0
      else if r_left r > r_right s \<or> r_left s > r_right r then QRect0
      else if r_top r > r_bottom s \<or> r_top s > r_bottom r then QRect0
      else \<lparr>rx1 = max (r_left r) (r_left s), ry1 = max (r_top r) (r_top s),
            rx2 = min (r_right r) (r_right s), ry2 = min (r_bottom r) (r_bottom s)\<rparr>)"

text \<open>\<^verbatim>\<open>QRect.contains(QPoint)\<close>, edges included.\<close>

definition r_contains :: "qrect \<Rightarrow> qpoint \<Rightarrow> bool" where
  "r_contains r p =
     (if r_isNull r then False
      else r_left r \<le> px p \<and> px p \<le> r_right r \<and> r_top r \<le> py p \<and> py p \<le> r_bottom r)"

text \<open>
  A \<^verbatim>\<open>QPixmap\<close> is its size and its pixels.  A pixel is \<open>None\<close> where the pixmap is
  transparent and \<open>Some c\<close> where it holds the opaque colour \<open>c\<close>; a screen grab is
  opaque everywhere.  \<open>pixel_at\<close> reads a pixel and yields nothing outside the pixmap.
\<close>

type_synonym colour = nat

record qpixmap =
  pm_width :: int
  pm_height :: int
  pm_pixel :: "int \<Rightarrow> int \<Rightarrow> colour option"

definition pm_isNull :: "qpixmap \<Rightarrow> bool" where
  "pm_isNull pm = (pm_width pm \<le> 0 \<or> pm_height pm \<le> 0)"

definition pixel_at :: "qpixmap \<Rightarrow> int \<Rightarrow> int \<Rightarrow> colour option" where
  "pixel_at pm x y =
     (if 0 \<le> x \<and> x < pm_width pm \<and> 0 \<le> y \<and> y < pm_height pm then pm_pixel pm x y else None)"

text \<open>\<^verbatim>\<open>QPixmap(width, height)\<close> followed by \<^verbatim>\<open>fill(Qt.transparent)\<close>.\<close>

definition transparent_pixmap :: "int \<Rightarrow> int \<Rightarrow> qpixmap" where
  "transparent_pixmap w h = \<lparr>pm_width = w, pm_height = h, pm_pixel = (\<lambda>x y. None)\<rparr>"

text \<open>
  \<^verbatim>\<open>painter.drawPixmap(dst_x, dst_y, pixmap, src_x, src_y, w, h)\<close> on a painter of
  \<open>target\<close>: the block of size \<open>w \<times> h\<close> at \<open>(src_x, src_y)\<close> of \<open>pixmap\<close> is painted
  at \<open>(dst_x, dst_y)\<close>, clipped to the target; a transparent source pixel leaves the
  target pixel as it is.
\<close>

definition drawPixmap ::
  "qpixmap \<Rightarrow> int \<Rightarrow> int \<Rightarrow> qpixmap \<Rightarrow> int \<Rightarrow> int \<Rightarrow> int \<Rightarrow> int \<Rightarrow> qpixmap" where
  "drawPixmap target dst_x dst_y pixmap src_x src_y w h =
     target\<lparr>pm_pixel := (\<lambda>x y.
        if 0 \<le> x \<and> x < pm_width target \<and> 0 \<le> y \<and> y < pm_height target
           \<and> dst_x \<le> x \<and> x < dst_x + w \<and> dst_y \<le> y \<and> y < dst_y + h
        then (case pixel_at pixmap (x - dst_x + src_x) (y - dst_y + src_y) of
                None \<Rightarrow> pm_pixel target x y
              | Some c \<Rightarrow> Some c)
        else pm_pixel target x y)\<rparr>"

section \<open>Normalising the selection\<close>

text \<open>
  \<^verbatim>\<open>capture_from_coordinates\<close>, lines 265-272: the bounds \<open>(x1, y1, x2, y2)\<close> of
  the rectangle spanned by the two end points.
\<close>

definition capture_from_coordinates_bounds :: "qpoint \<Rightarrow> qpoint \<Rightarrow> int \<times> int \<times> int \<times> int" where
  "capture_from_coordinates_bounds begin_point end_point =
     (let x1 = min (px begin_point) (px end_point);
          y1 = min (py begin_point) (py end_point);
          x2 = max (px begin_point) (px end_point);
          y2 = max (py begin_point) (py end_point)
      in (x1, y1, x2, y2))"

text \<open>
  \<^verbatim>\<open>finish_capture\<close>, lines 564-573: the same four assignments, followed by the
  statement that overwrites \<open>y2\<close> when the end point is above the begin point.
\<close>

definition finish_capture_bounds :: "qpoint \<Rightarrow> qpoint \<Rightarrow> int \<times> int \<times> int \<times> int" where
  "finish_capture_bounds global_begin global_end =
     (let x1 = min (px global_begin) (px global_end);
          y1 = min (py global_begin) (py global_end);
          x2 = max (px global_begin) (px global_end);
          y2 = max (py global_begin) (py global_end);
          y2 = (if py global_end < py global_begin then py global_end else y2)
      in (x1, y1, x2, y2))"

section \<open>The compositing loop\<close>

text \<open>One entry of the \<^verbatim>\<open>screenshots\<close> dictionary.\<close>

record screen_data =
  geometry :: qrect
  pixmap :: qpixmap

text \<open>
  The body of the loop over \<^verbatim>\<open>screenshots.items()\<close> (lines 297-320 and 595-622, the
  same text in both functions) decides whether \<^verbatim>\<open>drawPixmap\<close> is called and with
  which arguments \<open>(dst_x, dst_y, src_x, src_y, w, h)\<close>.  \<open>src_valid\<close> is the
  condition of lines 315-317 and 617-619.
\<close>

definition src_valid :: "int \<Rightarrow> int \<Rightarrow> qrect \<Rightarrow> qpixmap \<Rightarrow> bool" where
  "src_valid src_x src_y overlap pm =
     (src_x \<ge> 0 \<and> src_y \<ge> 0
      \<and> src_x + r_width overlap \<le> pm_width pm
      \<and> src_y + r_height overlap \<le> pm_height pm)"

definition blit_args ::
  "qrect \<Rightarrow> int \<Rightarrow> int \<Rightarrow> screen_data \<Rightarrow> (int \<times> int \<times> int \<times> int \<times> int \<times> int) option" where
  "blit_args selection_rect x1 y1 sd =
     (let geom = geometry sd; pixmap = pixmap sd in
      if pm_isNull pixmap then None
      else
        let overlap = intersected selection_rect geom in
        if \<not> r_isEmpty overlap then
          let src_x = rx1 overlap - rx1 geom;
              src_y = ry1 overlap - ry1 geom;
              dst_x = rx1 overlap - x1;
              dst_y = ry1 overlap - y1
          in if src_valid src_x src_y overlap pixmap
             then Some (dst_x, dst_y, src_x, src_y, r_width overlap, r_height overlap)
             else None
        else None)"

definition composite_screen :: "qrect \<Rightarrow> int \<Rightarrow> int \<Rightarrow> screen_data \<Rightarrow> qpixmap \<Rightarrow> qpixmap" where
  "composite_screen selection_rect x1 y1 sd selection =
     (case blit_args selection_rect x1 y1 sd of
        None \<Rightarrow> selection
      | Some (dst_x, dst_y, src_x, src_y, w, h) \<Rightarrow>
          drawPixmap selection dst_x dst_y (pixmap sd) src_x src_y w h)"

text \<open>
  The dictionary is iterated in insertion order, so it is a list of (key, entry) pairs.
  \<open>composite\<close> is lines 279-325 and 584-627: a transparent pixmap of the selection's
  size, painted by one loop iteration per screen.
\<close>

definition composite :: "int \<Rightarrow> int \<Rightarrow> int \<Rightarrow> int \<Rightarrow> (nat \<times> screen_data) list \<Rightarrow> qpixmap" where
  "composite x1 y1 width height screenshots =
     (let selection = transparent_pixmap width height;
          selection_rect = QRect x1 y1 width height
      in fold (\<lambda>(i, sd). composite_screen selection_rect x1 y1 sd) screenshots selection)"

section \<open>File names and the output sinks\<close>

text \<open>
  Python's \<^verbatim>\<open>str\<close> of an integer, as the f-strings of lines 333-337 and 638-642
  print it: decimal digits, most significant first, with a minus sign for a negative
  number.
\<close>

definition digit_char :: "nat \<Rightarrow> char" where
  "digit_char d = ''0123456789'' ! d"

fun str_nat :: "nat \<Rightarrow> string" where
  "str_nat n = (if n < 10 then [digit_char n] else str_nat (n div 10) @ [digit_char (n mod 10)])"

declare str_nat.simps [simp del]

definition str_int :: "int \<Rightarrow> string" where
  "str_int i = (if i < 0 then CHR ''-'' # str_nat (nat (- i)) else str_nat (nat i))"

text \<open>The two f-strings: the plain name and the name with a counter.\<close>

definition capture_name :: "int \<Rightarrow> int \<Rightarrow> int \<Rightarrow> int \<Rightarrow> string" where
  "capture_name x1 y1 width height =
     ''capture_'' @ str_int x1 @ ''_'' @ str_int y1 @ ''_'' @ str_int width @ ''x''
       @ str_int height @ ''.png''"

definition numbered_name :: "int \<Rightarrow> int \<Rightarrow> int \<Rightarrow> int \<Rightarrow> int \<Rightarrow> string" where
  "numbered_name x1 y1 width height counter =
     ''capture_'' @ str_int x1 @ ''_'' @ str_int y1 @ ''_'' @ str_int width @ ''x''
       @ str_int height @ ''_'' @ str_int counter @ ''.png''"

text \<open>
  \<^verbatim>\<open>os.path.join(a, b)\<close> for two components, in its POSIX form: an absolute \<open>b\<close>
  replaces \<open>a\<close>, otherwise one separator stands between them.
\<close>

definition path_join :: "string \<Rightarrow> string \<Rightarrow> string" where
  "path_join a b =
     (if b \<noteq> [] \<and> hd b = CHR ''/'' then b
      else if a = [] \<or> last a = CHR ''/'' then a @ b
      else a @ ''/'' @ b)"

text \<open>
  The loop of lines 336-339 and 641-644.  The file system is the list \<open>files\<close> of the
  paths that exist, and \<^verbatim>\<open>os.path.exists\<close> is membership in it.
\<close>

function unique_path ::
  "string list \<Rightarrow> string \<Rightarrow> int \<Rightarrow> int \<Rightarrow> int \<Rightarrow> int \<Rightarrow> int \<Rightarrow> string \<Rightarrow> string" where
  "unique_path files save_location x1 y1 width height counter filepath =
     (if filepath \<in> set files
      then unique_path files save_location x1 y1 width height (counter + 1)
             (path_join save_location (numbered_name x1 y1 width height counter))
      else filepath)"
  by pat_completeness auto

text \<open>Lines 333-339 and 638-644: the path the image is saved to.\<close>

definition fixed_location_path ::
  "string list \<Rightarrow> string \<Rightarrow> int \<Rightarrow> int \<Rightarrow> int \<Rightarrow> int \<Rightarrow> string" where
  "fixed_location_path files save_location x1 y1 width height =
     (let filename = capture_name x1 y1 width height;
          filepath = path_join save_location filename;
          counter = 1
      in unique_path files save_location x1 y1 width height counter filepath)"

text \<open>
  What the program does to the world outside its own fields is recorded as a list of
  events, in the order of the calls.  \<open>Composited\<close> marks that the compositing block ran
  for a rectangle; \<open>SingleShot\<close> is \<^verbatim>\<open>QTimer.singleShot\<close>.
\<close>

datatype deferred = CreateOverlays int int | FinishCapture

datatype event =
    HideWindow
  | ShowWindow
  | SingleShot nat deferred
  | ConfigSaved int int
  | OverlayCreated nat
  | OverlayShown nat
  | OverlayClosed nat
  | Composited qrect
  | ClipboardSetImage qpixmap
  | SavePNG string qpixmap
  | SaveDialog string

datatype output_mode = Clipboard | FixedLocation | NewLocation

text \<open>
  The world the program reads: the screens (\<^verbatim>\<open>QApplication.screens()\<close>, each with its
  geometry and what \<^verbatim>\<open>grabWindow(0)\<close> yields, \<open>None\<close> when the call raises), the
  existing files, the path the save dialog returns (empty when the user cancels) and
  \<^verbatim>\<open>QCursor.pos()\<close>.
\<close>

record screen =
  scr_geometry :: qrect
  grabWindow :: "qpixmap option"

record env =
  screens :: "screen list"
  files :: "string list"
  dialog_reply :: string
  cursor_pos :: qpoint

text \<open>
  Lines 327-351 and 632-656: the image goes to the clipboard, to the fixed location or
  to the path chosen in the dialog.
\<close>

definition deliver ::
  "env \<Rightarrow> output_mode \<Rightarrow> string \<Rightarrow> int \<Rightarrow> int \<Rightarrow> int \<Rightarrow> int \<Rightarrow> qpixmap \<Rightarrow> event list" where
  "deliver e mode save_location x1 y1 width height selection =
     (case mode of
        Clipboard \<Rightarrow> [ClipboardSetImage selection]
      | FixedLocation \<Rightarrow>
          [SavePNG (fixed_location_path (files e) save_location x1 y1 width height) selection]
      | NewLocation \<Rightarrow>
          (let filepath = dialog_reply e
           in SaveDialog (path_join save_location (capture_name x1 y1 width height))
              # (if filepath \<noteq> [] then [SavePNG filepath selection] else [])))"

section \<open>The application and its overlays\<close>

datatype capture_mode = Freehand | Fixed | Rapid

text \<open>The fields of an \<^verbatim>\<open>OverlayWidget\<close> the handlers read and write.\<close>

record overlay =
  ov_geometry :: qrect
  ov_mode :: "capture_mode option"
  fixed_width :: int
  fixed_height :: int
  is_drawing :: bool
  ov_visible :: bool
  timer_active :: bool

text \<open>\<^verbatim>\<open>OverlayWidget.__init__\<close>: the update timer runs in fixed mode only.\<close>

definition OverlayWidget :: "screen \<Rightarrow> capture_mode option \<Rightarrow> int \<Rightarrow> int \<Rightarrow> overlay" where
  "OverlayWidget scr mode w h =
     \<lparr>ov_geometry = scr_geometry scr, ov_mode = mode, fixed_width = w, fixed_height = h,
      is_drawing = False, ov_visible = False, timer_active = (mode = Some Fixed)\<rparr>"

text \<open>
  The fields of \<^verbatim>\<open>ScreenCaptureApp\<close>; \<open>visible\<close> is whether the main window is
  shown, \<open>toggle_enabled\<close> the state of \<^verbatim>\<open>toggleFrameBtn\<close>.
\<close>

record app =
  last_capture_begin :: "qpoint option"
  last_capture_end :: "qpoint option"
  last_capture_pixmap :: "qpixmap option"
  is_capturing :: bool
  capture_mode :: "capture_mode option"
  global_begin :: qpoint
  global_end :: qpoint
  output_mode :: output_mode
  save_location :: string
  overlays :: "overlay list"
  screenshots :: "(nat \<times> screen_data) list"
  is_overlay_operation_in_progress :: bool
  visible :: bool
  toggle_enabled :: bool

text \<open>\<^verbatim>\<open>_cleanup_overlays\<close>, lines 462-498.\<close>

definition cleanup_overlays :: "app \<Rightarrow> event list \<times> app" where
  "cleanup_overlays s =
     (map OverlayClosed [0..<length (overlays s)],
      s\<lparr>overlays := [], screenshots := [],
        is_capturing := (if is_capturing s \<and> capture_mode s \<noteq> Some Rapid then False
                         else is_capturing s)\<rparr>)"

text \<open>
  \<^verbatim>\<open>finish_capture\<close>, lines 549-689.  The calls into Qt are taken not to raise, so
  the two handlers at the end of the function are not reached.
\<close>

definition finish_capture :: "env \<Rightarrow> app \<Rightarrow> event list \<times> app" where
  "finish_capture e s =
     (if pt_isNull (global_begin s) \<or> pt_isNull (global_end s) then
        let s1 = s\<lparr>is_overlay_operation_in_progress := False\<rparr>;
            (closed, s2) = cleanup_overlays s1
        in (closed @ [ShowWindow], s2\<lparr>visible := True\<rparr>)
      else
        let s1 = s\<lparr>last_capture_begin := Some (global_begin s),
                   last_capture_end := Some (global_end s)\<rparr>;
            (x1, y1, x2, y2) = finish_capture_bounds (global_begin s) (global_end s);
            width = x2 - x1;
            height = y2 - y1;
            (out, s2) =
              (if width > 10 \<and> height > 10 then
                 let selection = composite x1 y1 width height (screenshots s1);
                     s2 = s1\<lparr>last_capture_pixmap := Some selection\<rparr>
                 in (Composited (QRect x1 y1 width height)
                       # deliver e (output_mode s2) (save_location s2) x1 y1 width height selection,
                     s2)
               else ([], s1));
            (closed, s3) = cleanup_overlays s2;
            s4 = s3\<lparr>is_capturing := False, global_begin := QPoint0, global_end := QPoint0,
                   toggle_enabled := True, is_overlay_operation_in_progress := False,
                   visible := True\<rparr>
        in (out @ closed @ [ShowWindow], s4))"




text \<open>
  \<^verbatim>\<open>start_fixed_capture\<close> and \<^verbatim>\<open>start_freehand_capture\<close>, lines 361-404; the
  width and height are the two combo boxes' values.
\<close>

definition start_fixed_capture :: "int \<Rightarrow> int \<Rightarrow> app \<Rightarrow> event list \<times> app" where
  "start_fixed_capture width height s =
     (if is_overlay_operation_in_progress s then ([], s)
      else ([ConfigSaved width height, HideWindow, SingleShot 200 (CreateOverlays width height)],
            s\<lparr>capture_mode := Some Fixed, visible := False,
              is_overlay_operation_in_progress := True\<rparr>))"

definition start_freehand_capture :: "app \<Rightarrow> event list \<times> app" where
  "start_freehand_capture s =
     (if is_overlay_operation_in_progress s then ([], s)
      else ([HideWindow, SingleShot 200 (CreateOverlays 800 600)],
            s\<lparr>capture_mode := Some Freehand, visible := False,
              is_overlay_operation_in_progress := True\<rparr>))"

text \<open>\<^verbatim>\<open>screenshots[i] = ...\<close> on the dictionary as a list of items.\<close>

definition dict_set :: "nat \<Rightarrow> screen_data \<Rightarrow> (nat \<times> screen_data) list \<Rightarrow> (nat \<times> screen_data) list" where
  "dict_set k v d =
     (if k \<in> fst ` set d then map (\<lambda>(k', v'). if k' = k then (k, v) else (k', v')) d
      else d @ [(k, v)])"

text \<open>
  The loop of \<^verbatim>\<open>_create_overlays\<close>, lines 511-527.  The overlay is appended to
  \<^verbatim>\<open>self.overlays\<close> before the screen is grabbed and shown after it, so a grab that
  raises leaves the loop with the overlays appended so far: \<open>Inl\<close> carries the events
  and the state at the raise, \<open>Inr\<close> those of a loop that ran to its end.
\<close>

fun create_loop ::
  "capture_mode option \<Rightarrow> int \<Rightarrow> int \<Rightarrow> nat \<Rightarrow> screen list \<Rightarrow> app
   \<Rightarrow> (event list \<times> app) + (event list \<times> app)" where
  "create_loop mode width height i [] s = Inr ([], s)"
| "create_loop mode width height i (scr # rest) s =
     (let ov = OverlayWidget scr mode width height;
          s1 = s\<lparr>overlays := overlays s @ [ov]\<rparr>
      in case grabWindow scr of
           None \<Rightarrow> Inl ([OverlayCreated i], s1)
         | Some screen_pixmap \<Rightarrow>
             (let s2 = s1\<lparr>screenshots :=
                          dict_set i \<lparr>geometry = scr_geometry scr, pixmap = screen_pixmap\<rparr>
                            (screenshots s1),
                        overlays := overlays s @ [ov\<lparr>ov_visible := True\<rparr>]\<rparr>
              in case create_loop mode width height (i + 1) rest s2 of
                   Inl (evs, s') \<Rightarrow> Inl (OverlayCreated i # OverlayShown i # evs, s')
                 | Inr (evs, s') \<Rightarrow> Inr (OverlayCreated i # OverlayShown i # evs, s')))"

text \<open>\<^verbatim>\<open>_create_overlays\<close>, lines 500-538, with its exception handler.\<close>

definition create_overlays :: "env \<Rightarrow> int \<Rightarrow> int \<Rightarrow> app \<Rightarrow> event list \<times> app" where
  "create_overlays e width height s =
     (let (closed, s0) = cleanup_overlays s;
          s1 = s0\<lparr>overlays := [], screenshots := []\<rparr>
      in case create_loop (capture_mode s1) width height 0 (screens e) s1 of
           Inr (evs, s2) \<Rightarrow>
             (let s3 = s2\<lparr>is_capturing := True\<rparr>
              in (closed @ evs
                    @ (if capture_mode s3 = Some Rapid then [SingleShot 200 FinishCapture] else []),
                  s3))
         | Inl (evs, s2) \<Rightarrow>
             (closed @ evs @ [ShowWindow],
              s2\<lparr>is_overlay_operation_in_progress := False, visible := True\<rparr>))"

text \<open>
  The event handlers of \<^verbatim>\<open>OverlayWidget\<close>.  The overlay that receives the event is
  named by its position \<open>j\<close> in \<^verbatim>\<open>self.overlays\<close>; an overlay that is not in the list
  receives no event.
\<close>

datatype mouse_button = LeftButton | RightButton | MiddleButton

datatype key = Key_Escape | Key_Other

text \<open>\<^verbatim>\<open>mousePressEvent\<close>, lines 974-1016.\<close>

definition mousePressEvent :: "env \<Rightarrow> nat \<Rightarrow> mouse_button \<Rightarrow> app \<Rightarrow> event list \<times> app" where
  "mousePressEvent e j button s =
     (if j < length (overlays s) \<and> button = LeftButton \<and> is_capturing s then
        let self = overlays s ! j;
            global_pos = cursor_pos e;
            screen_geom = ov_geometry self
        in if ov_mode self = Some Fixed then
             let s1 = s\<lparr>overlays := (overlays s)[j := self\<lparr>timer_active := False\<rparr>]\<rparr>;
                 local_x = px global_pos - rx1 screen_geom;
                 local_y = py global_pos - ry1 screen_geom;
                 rect = QRect (local_x - fixed_width self div 2) (local_y - fixed_height self div 2)
                          (fixed_width self) (fixed_height self);
                 s2 = s1\<lparr>global_begin := pt_add (topLeft rect) (topLeft screen_geom),
                         global_end := pt_add (bottomRight rect) (topLeft screen_geom)\<rparr>
             in finish_capture e s2
           else if ov_mode self = Some Freehand \<and> r_contains screen_geom global_pos then
             ([], s\<lparr>global_begin := global_pos, global_end := global_pos,
                    overlays := (overlays s)[j := self\<lparr>is_drawing := True\<rparr>]\<rparr>)
           else ([], s)
      else ([], s))"

text \<open>\<^verbatim>\<open>mouseMoveEvent\<close>, lines 1018-1040.\<close>

definition mouseMoveEvent :: "env \<Rightarrow> nat \<Rightarrow> app \<Rightarrow> event list \<times> app" where
  "mouseMoveEvent e j s =
     (if j < length (overlays s) \<and> is_capturing s then
        let self = overlays s ! j;
            global_pos = cursor_pos e
        in if px global_pos < - 10000 \<or> py global_pos < - 10000 then ([], s)
           else if ov_mode self = Some Freehand \<and> is_drawing self
             then ([], s\<lparr>global_end := global_pos\<rparr>)
           else ([], s)
      else ([], s))"

text \<open>\<^verbatim>\<open>mouseReleaseEvent\<close>, lines 1042-1073.\<close>

definition mouseReleaseEvent :: "env \<Rightarrow> nat \<Rightarrow> mouse_button \<Rightarrow> app \<Rightarrow> event list \<times> app" where
  "mouseReleaseEvent e j button s =
     (if j < length (overlays s) \<and> button = LeftButton \<and> is_capturing s then
        let self = overlays s ! j;
            global_pos = cursor_pos e
        in if px global_pos < - 10000 \<or> py global_pos < - 10000 then ([], s)
           else if ov_mode self = Some Freehand \<and> is_drawing self then
             let s1 = s\<lparr>overlays := (overlays s)[j := self\<lparr>is_drawing := False\<rparr>],
                        global_end := global_pos\<rparr>;
                 width = \<bar>px (global_end s1) - px (global_begin s1)\<bar>;
                 height = \<bar>py (global_end s1) - py (global_begin s1)\<bar>
             in if width < 10 \<or> height < 10 then
                  let s2 = s1\<lparr>is_overlay_operation_in_progress := False\<rparr>;
                      (closed, s3) = cleanup_overlays s2
                  in (closed @ [ShowWindow], s3\<lparr>visible := True\<rparr>)
                else finish_capture e s1
           else ([], s)
      else ([], s))"

text \<open>\<^verbatim>\<open>keyPressEvent\<close>, lines 1075-1091.\<close>

definition keyPressEvent :: "nat \<Rightarrow> key \<Rightarrow> app \<Rightarrow> event list \<times> app" where
  "keyPressEvent j k s =
     (if j < length (overlays s) \<and> k = Key_Escape \<and> is_capturing s then
        let self = overlays s ! j;
            s1 = s\<lparr>overlays := (overlays s)[j := self\<lparr>timer_active := False\<rparr>]\<rparr>;
            (closed, s2) = cleanup_overlays s1
        in (closed @ [ShowWindow],
            s2\<lparr>is_capturing := False, is_overlay_operation_in_progress := False,
               visible := True\<rparr>)
      else ([], s))"

section \<open>Notions the claims are stated with\<close>

text \<open>
  The events that composite an image or hand one to an output sink, and the events that
  create an overlay or schedule a deferred call.
\<close>

fun is_output :: "event \<Rightarrow> bool" where
  "is_output (Composited r) = True"
| "is_output (ClipboardSetImage img) = True"
| "is_output (SavePNG path img) = True"
| "is_output (SaveDialog path) = True"
| "is_output ev = False"

fun is_overlay_or_deferral :: "event \<Rightarrow> bool" where
  "is_overlay_or_deferral (OverlayCreated i) = True"
| "is_overlay_or_deferral (OverlayShown i) = True"
| "is_overlay_or_deferral (SingleShot ms d) = True"
| "is_overlay_or_deferral ev = False"

text \<open>
  Monitor geometries are pairwise non-overlapping when no two of them, at different
  positions of the list, have a non-empty intersection.
\<close>

fun non_overlapping :: "qrect list \<Rightarrow> bool" where
  "non_overlapping [] = True"
| "non_overlapping (g # gs) = ((\<forall>h \<in> set gs. r_isEmpty (intersected g h)) \<and> non_overlapping gs)"

text \<open>
  The exact crop of a buffer: the image of size \<open>w \<times> h\<close> whose pixel \<open>(x, y)\<close> is the
  buffer's pixel \<open>(x + sx, y + sy)\<close>.
\<close>

definition crop :: "qpixmap \<Rightarrow> int \<Rightarrow> int \<Rightarrow> int \<Rightarrow> int \<Rightarrow> qpixmap" where
  "crop pm sx sy w h =
     \<lparr>pm_width = w, pm_height = h,
      pm_pixel = (\<lambda>x y. if 0 \<le> x \<and> x < w \<and> 0 \<le> y \<and> y < h
                         then pixel_at pm (x + sx) (y + sy) else None)\<rparr>"

text \<open>
  The names the specification lists for a save to the fixed location: number 0 is
  \<^verbatim>\<open>capture_{x}_{y}_{w}x{h}.png\<close> in the save directory, number \<open>k > 0\<close> the same
  name with the suffix \<^verbatim>\<open>_k\<close>.
\<close>

definition candidate :: "string \<Rightarrow> int \<Rightarrow> int \<Rightarrow> int \<Rightarrow> int \<Rightarrow> nat \<Rightarrow> string" where
  "candidate dir x y w h k =
     (if k = 0
      then path_join dir (''capture_'' @ str_int x @ ''_'' @ str_int y @ ''_'' @ str_int w
                            @ ''x'' @ str_int h @ ''.png'')
      else path_join dir (''capture_'' @ str_int x @ ''_'' @ str_int y @ ''_'' @ str_int w
                            @ ''x'' @ str_int h @ ''_'' @ str_int (int k) @ ''.png''))"

text \<open>
  Three notions of the proofs: the points a rectangle covers, the points of a block at
  \<open>(bx, by)\<close> of size \<open>w \<times> h\<close>, and the counters from \<open>counter\<close> on whose numbered
  name exists.
\<close>

definition covers :: "qrect \<Rightarrow> int \<Rightarrow> int \<Rightarrow> bool" where
  "covers r x y = (r_left r \<le> x \<and> x \<le> r_right r \<and> r_top r \<le> y \<and> y \<le> r_bottom r)"

definition in_block :: "int \<Rightarrow> int \<Rightarrow> int \<Rightarrow> int \<Rightarrow> int \<Rightarrow> int \<Rightarrow> bool" where
  "in_block bx by w h x y = (bx \<le> x \<and> x < bx + w \<and> by \<le> y \<and> y < by + h)"

definition taken_from :: "string list \<Rightarrow> string \<Rightarrow> int \<Rightarrow> int \<Rightarrow> int \<Rightarrow> int \<Rightarrow> int \<Rightarrow> int set" where
  "taken_from fs d x1 y1 w h counter =
     {k. counter \<le> k \<and> path_join d (numbered_name x1 y1 w h k) \<in> set fs}"

section \<open>Example desktops and sessions\<close>

text \<open>A grab of one colour, two monitors side by side, and a monitor whose grab is
  smaller than its geometry.\<close>

definition solid :: "int \<Rightarrow> int \<Rightarrow> colour \<Rightarrow> qpixmap" where
  "solid w h c = \<lparr>pm_width = w, pm_height = h, pm_pixel = (\<lambda>x y. Some c)\<rparr>"

definition left_monitor :: screen_data where
  "left_monitor = \<lparr>geometry = QRect 0 0 100 100, pixmap = solid 100 100 1\<rparr>"

definition right_monitor :: screen_data where
  "right_monitor = \<lparr>geometry = QRect 100 0 100 100, pixmap = solid 100 100 2\<rparr>"

definition short_grab_monitor :: screen_data where
  "short_grab_monitor = \<lparr>geometry = QRect 100 0 100 100, pixmap = solid 50 50 3\<rparr>"

text \<open>The application as \<^verbatim>\<open>__init__\<close> leaves it (lines 58-77).\<close>

definition init_app :: "string \<Rightarrow> app" where
  "init_app dir =
     \<lparr>last_capture_begin = None, last_capture_end = None, last_capture_pixmap = None,
      is_capturing = False, capture_mode = None, global_begin = QPoint0, global_end = QPoint0,
      output_mode = Clipboard, save_location = dir, overlays = [], screenshots = [],
      is_overlay_operation_in_progress = False, visible = True, toggle_enabled = False\<rparr>"

text \<open>The same application after a capture of the rectangle from (10, 20) to (50, 70).\<close>

definition after_capture :: app where
  "after_capture =
     (init_app ''/shots'')\<lparr>last_capture_begin := Some \<lparr>px = 10, py = 20\<rparr>,
                           last_capture_end := Some \<lparr>px = 50, py = 70\<rparr>,
                           last_capture_pixmap := Some (solid 40 50 1),
                           toggle_enabled := True\<rparr>"

text \<open>A desktop of one screen with the pointer at \<open>p\<close>, and a desktop of two screens
  whose second screen cannot be grabbed.\<close>

definition one_screen :: "qpoint \<Rightarrow> env" where
  "one_screen p =
     \<lparr>screens = [\<lparr>scr_geometry = QRect 0 0 1920 1080, grabWindow = Some (solid 1920 1080 1)\<rparr>],
      files = [], dialog_reply = [], cursor_pos = p\<rparr>"

definition second_screen_lost :: env where
  "second_screen_lost =
     \<lparr>screens = [\<lparr>scr_geometry = QRect 0 0 1920 1080, grabWindow = Some (solid 1920 1080 1)\<rparr>,
                 \<lparr>scr_geometry = QRect 1920 0 1920 1080, grabWindow = None\<rparr>],
      files = [], dialog_reply = [], cursor_pos = \<lparr>px = 400, py = 300\<rparr>\<rparr>"

text \<open>
  A freehand session on the one screen: the button, the deferred overlay creation, a
  press at (100, 100).
\<close>

definition freehand_pressed :: app where
  "freehand_pressed =
     snd (mousePressEvent (one_screen \<lparr>px = 100, py = 100\<rparr>) 0 LeftButton
       (snd (create_overlays (one_screen \<lparr>px = 100, py = 100\<rparr>) 800 600
         (snd (start_freehand_capture after_capture)))))"

text \<open>A fixed-size session of 800 by 600 on the one screen, overlays shown.\<close>

definition fixed_armed :: app where
  "fixed_armed =
     snd (create_overlays (one_screen \<lparr>px = 400, py = 300\<rparr>) 800 600
       (snd (start_fixed_capture 800 600 (init_app ''/shots''))))"

text \<open>A directory in which the plain name and the name numbered 1 exist.\<close>

definition two_taken :: env where
  "two_taken =
     \<lparr>screens = [], 
      files = [''/shots/capture_5_5_100x100.png'', ''/shots/capture_5_5_100x100_1.png''],
      dialog_reply = [], cursor_pos = QPoint0\<rparr>"


section \<open>Decimal names and the search for a free file name\<close>

text \<open>
  Different counters print differently, so only finitely many numbered names exist in a
  finite file system and the loop of lines 641-644 ends.
\<close>

lemma digit_char_inj: "a < 10 \<Longrightarrow> b < 10 \<Longrightarrow> digit_char a = digit_char b \<Longrightarrow> a = b"
proof -
  assume a: "a < 10" and b: "b < 10" and e: "digit_char a = digit_char b"
  have d: "distinct ''0123456789''" by simp
  have "length ''0123456789'' = 10" by simp
  with a b e d show "a = b"
    unfolding digit_char_def by (metis nth_eq_iff_index_eq)
qed

lemma str_nat_small: "n < 10 \<Longrightarrow> str_nat n = [digit_char n]"
  by (subst str_nat.simps) simp

lemma str_nat_big: "\<not> n < 10 \<Longrightarrow> str_nat n = str_nat (n div 10) @ [digit_char (n mod 10)]"
  by (subst str_nat.simps) simp

lemma str_nat_nonempty: "str_nat n \<noteq> []"
  by (subst str_nat.simps) simp

lemma str_nat_inj: "str_nat m = str_nat n \<Longrightarrow> m = n"
proof (induction m arbitrary: n rule: str_nat.induct)
  case (1 m)
  show ?case
  proof (cases "m < 10")
    case True
    note m = this
    show ?thesis
    proof (cases "n < 10")
      case True
      with m "1.prems" show ?thesis
        by (simp add: str_nat_small digit_char_inj)
    next
      case False
      with m "1.prems" str_nat_nonempty[of "n div 10"] show ?thesis
        by (simp add: str_nat_small str_nat_big)
    qed
  next
    case False
    note m = this
    show ?thesis
    proof (cases "n < 10")
      case True
      with m "1.prems" str_nat_nonempty[of "m div 10"] show ?thesis
        by (simp add: str_nat_small str_nat_big)
    next
      case False
      have e: "str_nat (m div 10) @ [digit_char (m mod 10)] = str_nat (n div 10) @ [digit_char (n mod 10)]"
        using "1.prems" m False by (simp add: str_nat_big)
      then have "str_nat (m div 10) = str_nat (n div 10)" and d: "digit_char (m mod 10) = digit_char (n mod 10)"
        by simp_all
      then have "m div 10 = n div 10" using "1.IH"[OF m] by blast
      moreover have "m mod 10 = n mod 10" using d by (intro digit_char_inj) simp_all
      ultimately show ?thesis by (metis div_mult_mod_eq)
    qed
  qed
qed

lemma str_nat_hd_not_minus: "hd (str_nat n) \<noteq> CHR ''-''"
proof (induction n rule: str_nat.induct)
  case (1 n)
  show ?case
  proof (cases "n < 10")
    case True
    then have "n \<in> {0,1,2,3,4,5,6,7,8,9}" by auto
    then show ?thesis
      by (subst str_nat.simps) (auto simp: digit_char_def)
  next
    case False
    with 1 show ?thesis
      by (subst str_nat.simps) (simp add: str_nat_nonempty)
  qed
qed

lemma str_int_inj: "str_int i = str_int j \<Longrightarrow> i = j"
proof -
  assume e: "str_int i = str_int j"
  have ne: "str_nat n \<noteq> CHR ''-'' # s" for n s
    using str_nat_hd_not_minus[of n] by (metis list.sel(1))
  show "i = j"
  proof (cases "i < 0"; cases "j < 0")
    assume "i < 0" "j < 0"
    with e have "nat (- i) = nat (- j)" by (simp add: str_int_def str_nat_inj)
    with \<open>i < 0\<close> \<open>j < 0\<close> show ?thesis by simp
  next
    assume "i < 0" "\<not> j < 0"
    with e ne show ?thesis by (simp add: str_int_def) metis
  next
    assume "\<not> i < 0" "j < 0"
    with e ne show ?thesis by (simp add: str_int_def)
  next
    assume "\<not> i < 0" "\<not> j < 0"
    with e have "nat i = nat j" by (simp add: str_int_def str_nat_inj)
    with \<open>\<not> i < 0\<close> \<open>\<not> j < 0\<close> show ?thesis by simp
  qed
qed

lemma path_join_name:
  "b \<noteq> [] \<Longrightarrow> hd b \<noteq> CHR ''/'' \<Longrightarrow> path_join a b = (if a = [] \<or> last a = CHR ''/'' then a else a @ ''/'') @ b"
  by (simp add: path_join_def)

lemma numbered_path_inj:
  "path_join d (numbered_name x1 y1 w h i) = path_join d (numbered_name x1 y1 w h j) \<Longrightarrow> i = j"
proof -
  have n: "numbered_name x1 y1 w h k \<noteq> [] \<and> hd (numbered_name x1 y1 w h k) \<noteq> CHR ''/''" for k
    by (simp add: numbered_name_def)
  assume "path_join d (numbered_name x1 y1 w h i) = path_join d (numbered_name x1 y1 w h j)"
  then have "numbered_name x1 y1 w h i = numbered_name x1 y1 w h j"
    using n by (simp add: path_join_name)
  then have "str_int i = str_int j" by (simp add: numbered_name_def)
  then show ?thesis by (rule str_int_inj)
qed

lemma finite_taken_from: "finite (taken_from fs d x1 y1 w h counter)"
proof -
  have "taken_from fs d x1 y1 w h counter
       \<subseteq> (\<lambda>k. path_join d (numbered_name x1 y1 w h k)) -` set fs"
    by (auto simp: taken_from_def)
  moreover have "finite ((\<lambda>k. path_join d (numbered_name x1 y1 w h k)) -` set fs)"
    by (intro finite_vimageI) (auto simp: inj_on_def dest: numbered_path_inj)
  ultimately show ?thesis by (rule finite_subset)
qed

lemma taken_from_step:
  "taken_from fs d x1 y1 w h counter =
     (if path_join d (numbered_name x1 y1 w h counter) \<in> set fs then {counter} else {})
     \<union> taken_from fs d x1 y1 w h (counter + 1)"
proof -
  have "(counter \<le> k) = (k = counter \<or> counter + 1 \<le> k)" for k by auto
  then have "taken_from fs d x1 y1 w h counter
      = {k. k = counter \<and> path_join d (numbered_name x1 y1 w h k) \<in> set fs}
        \<union> taken_from fs d x1 y1 w h (counter + 1)"
    unfolding taken_from_def by blast
  then show ?thesis by auto
qed

termination unique_path
proof (relation "measure (\<lambda>(fs, d, x1, y1, w, h, counter, filepath).
          card (taken_from fs d x1 y1 w h counter) + (if filepath \<in> set fs then 1 else 0))")
  show "wf (measure (\<lambda>(fs, d, x1, y1, w, h, counter, filepath).
          card (taken_from fs d x1 y1 w h counter) + (if filepath \<in> set fs then 1 else 0)))"
    by simp
next
  fix fs :: "string list" and save_location x1 y1 width height counter and filepath :: string
  assume "filepath \<in> set fs"
  have "counter \<notin> taken_from fs save_location x1 y1 width height (counter + 1)"
    by (simp add: taken_from_def)
  then have "card (taken_from fs save_location x1 y1 width height (counter + 1))
        + (if path_join save_location (numbered_name x1 y1 width height counter) \<in> set fs then 1 else 0)
      = card (taken_from fs save_location x1 y1 width height counter)"
    by (subst (2) taken_from_step) (simp add: finite_taken_from)
  with \<open>filepath \<in> set fs\<close>
  show "((fs, save_location, x1, y1, width, height, counter + 1,
          path_join save_location (numbered_name x1 y1 width height counter)),
         (fs, save_location, x1, y1, width, height, counter, filepath))
       \<in> measure (\<lambda>(fs, d, x1, y1, w, h, counter, filepath).
          card (taken_from fs d x1 y1 w h counter) + (if filepath \<in> set fs then 1 else 0))"
    by simp
qed

declare unique_path.simps [simp del]

lemma unique_path_first_free:
  assumes "filepath = candidate d x1 y1 w h k" "counter = int k + 1"
    and "\<forall>j<k. candidate d x1 y1 w h j \<in> set fs"
  shows "\<exists>n. unique_path fs d x1 y1 w h counter filepath = candidate d x1 y1 w h n
           \<and> candidate d x1 y1 w h n \<notin> set fs
           \<and> (\<forall>j<n. candidate d x1 y1 w h j \<in> set fs)"
  using assms
proof (induction fs d x1 y1 w h counter filepath arbitrary: k rule: unique_path.induct)
  case (1 fs d x1 y1 w h counter filepath)
  show ?case
  proof (cases "filepath \<in> set fs")
    case True
    have c: "path_join d (numbered_name x1 y1 w h counter) = candidate d x1 y1 w h (Suc k)"
      using "1.prems"(2) by (simp add: candidate_def numbered_name_def add.commute)
    have "\<forall>j<Suc k. candidate d x1 y1 w h j \<in> set fs"
      using "1.prems" True by (auto simp: less_Suc_eq)
    from "1.IH"[OF True c _ this] "1.prems"(2) True show ?thesis
      by (subst unique_path.simps) simp
  next
    case False
    with "1.prems" show ?thesis
      by (subst unique_path.simps) auto
  qed
qed


lemma fixed_location_path_first_free:
  "\<exists>n. fixed_location_path fs d x1 y1 w h = candidate d x1 y1 w h n
       \<and> candidate d x1 y1 w h n \<notin> set fs
       \<and> (\<forall>j<n. candidate d x1 y1 w h j \<in> set fs)"
proof -
  have a: "path_join d (capture_name x1 y1 w h) = candidate d x1 y1 w h 0"
    by (simp add: candidate_def capture_name_def)
  have b: "(1::int) = int 0 + 1" by simp
  have c: "\<forall>j<(0::nat). candidate d x1 y1 w h j \<in> set fs" by simp
  from unique_path_first_free [OF a b c] show ?thesis
    by (simp add: fixed_location_path_def Let_def)
qed

lemma fixed_location_path_depends_on_set:
  assumes "set fs = set fs'"
  shows "fixed_location_path fs d x1 y1 w h = fixed_location_path fs' d x1 y1 w h"
proof -
  obtain n where n: "fixed_location_path fs d x1 y1 w h = candidate d x1 y1 w h n"
    "candidate d x1 y1 w h n \<notin> set fs" "\<forall>j<n. candidate d x1 y1 w h j \<in> set fs"
    using fixed_location_path_first_free by blast
  obtain m where m: "fixed_location_path fs' d x1 y1 w h = candidate d x1 y1 w h m"
    "candidate d x1 y1 w h m \<notin> set fs'" "\<forall>j<m. candidate d x1 y1 w h j \<in> set fs'"
    using fixed_location_path_first_free by blast
  have "\<not> n < m" using n(2) m(3) assms by auto
  moreover have "\<not> m < n" using m(2) n(3) assms by auto
  ultimately have "n = m" by arith
  with n(1) m(1) show ?thesis by simp
qed

text \<open>
  C9.  A save in fixed-location mode writes one file.  Its path is one of the names
  \<^verbatim>\<open>capture_{x1}_{y1}_{width}x{height}.png\<close>, \<^verbatim>\<open>..._1.png\<close>, \<^verbatim>\<open>..._2.png\<close>,
  ... in the save directory, namely the first of them, in that order, that does not
  exist yet: every earlier name exists.  It is computed from the existing paths alone,
  and the search always ends.
\<close>

theorem fixed_location_save_first_free_name:
  "\<exists>n. deliver e FixedLocation dir x1 y1 width height selection
         = [SavePNG (candidate dir x1 y1 width height n) selection]
       \<and> candidate dir x1 y1 width height n \<notin> set (files e)
       \<and> (\<forall>j<n. candidate dir x1 y1 width height j \<in> set (files e))"
  using fixed_location_path_first_free [of "files e" dir x1 y1 width height]
  by (auto simp: deliver_def)

lemma candidate_5_5_100x100:
  "candidate ''/shots'' 5 5 100 100 0 = ''/shots/capture_5_5_100x100.png''"
  "candidate ''/shots'' 5 5 100 100 1 = ''/shots/capture_5_5_100x100_1.png''"
  "candidate ''/shots'' 5 5 100 100 2 = ''/shots/capture_5_5_100x100_2.png''"
  by (simp_all add: candidate_def path_join_def str_int_def str_nat.simps digit_char_def)

theorem fixed_location_save_first_free_name_witness:
  "deliver two_taken FixedLocation ''/shots'' 5 5 100 100 (solid 100 100 1)
     = [SavePNG ''/shots/capture_5_5_100x100_2.png'' (solid 100 100 1)]"
proof -
  obtain n where
    d: "deliver two_taken FixedLocation ''/shots'' 5 5 100 100 (solid 100 100 1)
          = [SavePNG (candidate ''/shots'' 5 5 100 100 n) (solid 100 100 1)]"
    and free: "candidate ''/shots'' 5 5 100 100 n \<notin> set (files two_taken)"
    and taken: "\<forall>j<n. candidate ''/shots'' 5 5 100 100 j \<in> set (files two_taken)"
    using fixed_location_save_first_free_name
      [of two_taken "''/shots''" 5 5 100 100 "solid 100 100 1"]
    by blast
  have "n \<noteq> 0"
  proof
    assume "n = 0"
    with free have "candidate ''/shots'' 5 5 100 100 0 \<notin> set (files two_taken)" by blast
    then show False unfolding candidate_5_5_100x100 two_taken_def by simp
  qed
  moreover have "n \<noteq> 1"
  proof
    assume "n = 1"
    with free have "candidate ''/shots'' 5 5 100 100 1 \<notin> set (files two_taken)" by blast
    then show False unfolding candidate_5_5_100x100 two_taken_def by simp
  qed
  moreover have "\<not> 2 < n"
  proof
    assume "2 < n"
    with taken have "candidate ''/shots'' 5 5 100 100 2 \<in> set (files two_taken)" by blast
    then show False unfolding candidate_5_5_100x100 two_taken_def by simp
  qed
  ultimately have "n = 2" by arith
  with d show ?thesis by (simp add: candidate_5_5_100x100)
qed


section \<open>The compositing loop: proofs\<close>

lemma intersected_covers:
  assumes "\<not> r_isEmpty (intersected r s)"
  shows "(rx1 (intersected r s) \<le> x \<and> x \<le> rx2 (intersected r s)
          \<and> ry1 (intersected r s) \<le> y \<and> y \<le> ry2 (intersected r s))
         = (covers r x y \<and> covers s x y)"
  using assms
  by (auto simp: intersected_def r_isEmpty_def QRect0_def covers_def split: if_splits)

lemma covers_not_null: "covers g x y \<Longrightarrow> \<not> r_isNull g"
  by (auto simp: covers_def r_isNull_def r_left_def r_right_def)

lemma disjoint_covers:
  assumes "r_isEmpty (intersected g1 g2)"
  shows "\<not> (covers g1 x y \<and> covers g2 x y)"
proof
  assume c: "covers g1 x y \<and> covers g2 x y"
  then have "\<not> r_isNull g1" "\<not> r_isNull g2" by (auto dest: covers_not_null)
  with c have "\<not> r_isEmpty (intersected g1 g2)"
    by (auto simp add: intersected_def r_isEmpty_def covers_def)
  with assms show False by simp
qed

lemma blit_args_SomeD:
  assumes "blit_args sel x1 y1 sd = Some (dx, dy, sx, sy, w, h)"
  shows "\<not> pm_isNull (pixmap sd)" "\<not> r_isEmpty (intersected sel (geometry sd))"
    "dx = rx1 (intersected sel (geometry sd)) - x1"
    "dy = ry1 (intersected sel (geometry sd)) - y1"
    "sx = rx1 (intersected sel (geometry sd)) - rx1 (geometry sd)"
    "sy = ry1 (intersected sel (geometry sd)) - ry1 (geometry sd)"
    "w = r_width (intersected sel (geometry sd))"
    "h = r_height (intersected sel (geometry sd))"
    "0 \<le> sx" "0 \<le> sy" "sx + w \<le> pm_width (pixmap sd)" "sy + h \<le> pm_height (pixmap sd)"
  using assms by (auto simp: blit_args_def src_valid_def Let_def split: if_splits)

lemma blit_block_covers:
  assumes "blit_args sel x1 y1 sd = Some (dx, dy, sx, sy, w, h)"
  shows "(dx \<le> x \<and> x < dx + w \<and> dy \<le> y \<and> y < dy + h)
         = (covers sel (x + x1) (y + y1) \<and> covers (geometry sd) (x + x1) (y + y1))"
proof -
  note d = blit_args_SomeD[OF assms]
  have "(dx \<le> x \<and> x < dx + w \<and> dy \<le> y \<and> y < dy + h)
     = (rx1 (intersected sel (geometry sd)) \<le> x + x1 \<and> x + x1 \<le> rx2 (intersected sel (geometry sd))
          \<and> ry1 (intersected sel (geometry sd)) \<le> y + y1 \<and> y + y1 \<le> ry2 (intersected sel (geometry sd)))"
    unfolding d(3,4,7,8) r_width_def r_height_def by auto
  then show ?thesis using intersected_covers[OF d(2)] by simp
qed

lemma drawPixmap_size [simp]:
  "pm_width (drawPixmap t dx dy p sx sy w h) = pm_width t"
  "pm_height (drawPixmap t dx dy p sx sy w h) = pm_height t"
  by (simp_all add: drawPixmap_def)

lemma pm_pixel_drawPixmap:
  "pm_pixel (drawPixmap t dx dy p sx sy w h) x y =
     (if in_block 0 0 (pm_width t) (pm_height t) x y \<and> in_block dx dy w h x y
      then (case pixel_at p (x - dx + sx) (y - dy + sy) of
                None \<Rightarrow> pm_pixel t x y
              | Some c \<Rightarrow> Some c)
      else pm_pixel t x y)"
  by (simp add: drawPixmap_def in_block_def)

lemma drawPixmap_commute:
  assumes "\<And>x y. \<not> (in_block dx dy w h x y \<and> in_block dx' dy' w' h' x y)"
  shows "drawPixmap (drawPixmap t dx dy p sx sy w h) dx' dy' p' sx' sy' w' h'
       = drawPixmap (drawPixmap t dx' dy' p' sx' sy' w' h') dx dy p sx sy w h"
proof (intro qpixmap.equality)
  show "pm_pixel (drawPixmap (drawPixmap t dx dy p sx sy w h) dx' dy' p' sx' sy' w' h')
      = pm_pixel (drawPixmap (drawPixmap t dx' dy' p' sx' sy' w' h') dx dy p sx sy w h)"
  proof (intro ext)
    fix x y
    show "pm_pixel (drawPixmap (drawPixmap t dx dy p sx sy w h) dx' dy' p' sx' sy' w' h') x y
      = pm_pixel (drawPixmap (drawPixmap t dx' dy' p' sx' sy' w' h') dx dy p sx sy w h) x y"
    proof (cases "in_block dx dy w h x y")
      case True
      with assms[of x y] have "\<not> in_block dx' dy' w' h' x y" by blast
      then show ?thesis by (simp add: pm_pixel_drawPixmap split: option.split)
    next
      case False
      then show ?thesis by (simp add: pm_pixel_drawPixmap split: option.split)
    qed
  qed
qed (simp_all add: drawPixmap_def)

lemma composite_screen_commute:
  assumes "r_isEmpty (intersected (geometry a) (geometry b))"
  shows "composite_screen sel x1 y1 a (composite_screen sel x1 y1 b t)
       = composite_screen sel x1 y1 b (composite_screen sel x1 y1 a t)"
proof (cases "blit_args sel x1 y1 a")
  case None
  then show ?thesis by (simp add: composite_screen_def)
next
  case (Some aa)
  note A = this
  show ?thesis
  proof (cases "blit_args sel x1 y1 b")
    case None
    then show ?thesis by (simp add: composite_screen_def)
  next
    case (Some bb)
    obtain dx dy sx sy w h where aa: "aa = (dx, dy, sx, sy, w, h)" by (cases aa) auto
    obtain dx' dy' sx' sy' w' h' where bb: "bb = (dx', dy', sx', sy', w', h')" by (cases bb) auto
    have "\<not> (in_block dx dy w h x y \<and> in_block dx' dy' w' h' x y)" for x y
      unfolding in_block_def using blit_block_covers[OF A[unfolded aa], of x y] blit_block_covers[OF Some[unfolded bb], of x y]
        disjoint_covers[OF assms, of "x + x1" "y + y1"] by blast
    from drawPixmap_commute[OF this] show ?thesis
      by (simp add: composite_screen_def A Some aa bb)
  qed
qed

lemma non_overlapping_commute:
  assumes "non_overlapping (map geometry ms)" "a \<in> set ms" "b \<in> set ms"
  shows "composite_screen sel x1 y1 a \<circ> composite_screen sel x1 y1 b
       = composite_screen sel x1 y1 b \<circ> composite_screen sel x1 y1 a"
  using assms
proof (induction ms)
  case Nil
  then show ?case by simp
next
  case (Cons m ms)
  show ?case
  proof (cases "a = b")
    case True
    then show ?thesis by simp
  next
    case False
    consider "a = m" "b \<in> set ms" | "b = m" "a \<in> set ms" | "a \<in> set ms" "b \<in> set ms"
      using Cons.prems False by auto
    then show ?thesis
    proof cases
      case 1
      with Cons.prems(1) have "r_isEmpty (intersected (geometry a) (geometry b))" by simp
      then show ?thesis by (auto simp: fun_eq_iff intro: composite_screen_commute)
    next
      case 2
      with Cons.prems(1) have "r_isEmpty (intersected (geometry b) (geometry a))" by simp
      then show ?thesis by (auto simp: fun_eq_iff intro: composite_screen_commute[symmetric])
    next
      case 3
      with Cons show ?thesis by simp
    qed
  qed
qed

lemma fold_items:
  "fold (\<lambda>(i, sd). f sd) shots t = fold f (map snd shots) t"
  by (induction shots arbitrary: t) auto

lemma composite_fold:
  "composite x1 y1 width height shots =
     fold (composite_screen (QRect x1 y1 width height) x1 y1) (map snd shots)
       (transparent_pixmap width height)"
  by (simp add: composite_def fold_items)

text \<open>
  C7.  When the geometries of the monitors are pairwise non-overlapping, the composited
  image is the same for every order in which the loop visits the monitors: a list of
  shots holding the same monitors in another order gives the same image.
\<close>

theorem composite_order_independent:
  assumes "non_overlapping (map (geometry \<circ> snd) shots)"
    and "mset (map snd shots') = mset (map snd shots)"
  shows "composite x1 y1 width height shots' = composite x1 y1 width height shots"
proof -
  have no: "non_overlapping (map geometry (map snd shots))" using assms(1) by simp
  have "fold (composite_screen (QRect x1 y1 width height) x1 y1) (map snd shots)
     = fold (composite_screen (QRect x1 y1 width height) x1 y1) (map snd shots')"
  proof (rule fold_multiset_equiv)
    show "mset (map snd shots) = mset (map snd shots')"
      using assms(2) by simp
  next
    fix a b
    assume "a \<in> set (map snd shots)" "b \<in> set (map snd shots)"
    then show "composite_screen (QRect x1 y1 width height) x1 y1 a
         \<circ> composite_screen (QRect x1 y1 width height) x1 y1 b
       = composite_screen (QRect x1 y1 width height) x1 y1 b
         \<circ> composite_screen (QRect x1 y1 width height) x1 y1 a"
      by (rule non_overlapping_commute[OF no])
  qed
  then show ?thesis by (simp add: composite_fold)
qed

theorem composite_order_independent_witness:
  "non_overlapping (map (geometry \<circ> snd) [(0, left_monitor), (1, right_monitor)])
   \<and> composite 50 10 100 50 [(0, right_monitor), (1, left_monitor)]
       = composite 50 10 100 50 [(0, left_monitor), (1, right_monitor)]"
proof -
  have n: "non_overlapping (map (geometry \<circ> snd) [(0, left_monitor), (1, right_monitor)])"
    by (simp add: left_monitor_def right_monitor_def QRect_def intersected_def r_isNull_def
          r_left_def r_right_def r_top_def r_bottom_def r_isEmpty_def QRect0_def)
  have m: "mset (map snd [(0::nat, right_monitor), (1, left_monitor)])
         = mset (map snd [(0::nat, left_monitor), (1, right_monitor)])"
    by simp
  from n composite_order_independent [OF n m, of 50 10 100 50] show ?thesis by blast
qed

lemma composite_screen_skip:
  "blit_args sel x1 y1 sd = None \<Longrightarrow> composite_screen sel x1 y1 sd t = t"
  by (simp add: composite_screen_def)

lemma blit_args_empty_overlap:
  "r_isEmpty (intersected sel (geometry sd)) \<Longrightarrow> blit_args sel x1 y1 sd = None"
  by (simp add: blit_args_def Let_def)

lemma fold_skip:
  "(\<And>sd. sd \<in> set ms \<Longrightarrow> blit_args sel x1 y1 sd = None)
    \<Longrightarrow> fold (composite_screen sel x1 y1) ms t = t"
  by (induction ms arbitrary: t) (simp_all add: composite_screen_skip)

lemma draw_on_transparent:
  "drawPixmap (transparent_pixmap w h) 0 0 pm sx sy w h = crop pm sx sy w h"
proof (intro qpixmap.equality)
  show "pm_pixel (drawPixmap (transparent_pixmap w h) 0 0 pm sx sy w h)
      = pm_pixel (crop pm sx sy w h)"
    by (intro ext) (simp add: drawPixmap_def transparent_pixmap_def crop_def split: option.split)
qed (simp_all add: drawPixmap_def transparent_pixmap_def crop_def)

lemma blit_args_inside:
  assumes "0 < width" "0 < height"
    and "rx1 (geometry m) \<le> x1" "x1 + width - 1 \<le> rx2 (geometry m)"
    and "ry1 (geometry m) \<le> y1" "y1 + height - 1 \<le> ry2 (geometry m)"
    and "pm_width (pixmap m) = r_width (geometry m)"
    and "pm_height (pixmap m) = r_height (geometry m)"
  shows "blit_args (QRect x1 y1 width height) x1 y1 m
       = Some (0, 0, x1 - rx1 (geometry m), y1 - ry1 (geometry m), width, height)"
proof -
  have e: "r_left (geometry m) = rx1 (geometry m)" "r_right (geometry m) = rx2 (geometry m)"
    "r_top (geometry m) = ry1 (geometry m)" "r_bottom (geometry m) = ry2 (geometry m)"
    "\<not> r_isNull (geometry m)"
    using assms(1-6) by (auto simp: r_left_def r_right_def r_top_def r_bottom_def r_isNull_def)
  have s: "r_left (QRect x1 y1 width height) = x1" "r_right (QRect x1 y1 width height) = x1 + width - 1"
    "r_top (QRect x1 y1 width height) = y1" "r_bottom (QRect x1 y1 width height) = y1 + height - 1"
    "\<not> r_isNull (QRect x1 y1 width height)"
    using assms(1,2) by (auto simp: r_left_def r_right_def r_top_def r_bottom_def r_isNull_def QRect_def)
  have i: "intersected (QRect x1 y1 width height) (geometry m) = QRect x1 y1 width height"
    using assms(1-6) by (simp add: intersected_def e s) (simp add: QRect_def)
  have n: "\<not> pm_isNull (pixmap m)"
    using assms by (simp add: pm_isNull_def r_width_def r_height_def)
  show ?thesis
    using assms n
    by (simp add: blit_args_def i Let_def src_valid_def)
       (simp add: QRect_def r_isEmpty_def r_width_def r_height_def)
qed

text \<open>
  C5.  When the selection rectangle (of positive width and height) lies inside the
  geometry of one monitor, that monitor's grab has the size of its geometry, and no
  other monitor's geometry meets the rectangle, the composited image is the exact crop
  of that monitor's grab at the offset \<open>(x1 - geometry.x, y1 - geometry.y)\<close>.
\<close>

theorem composite_single_monitor_crop:
  assumes "0 < width" "0 < height"
    and "rx1 (geometry m) \<le> x1" "x1 + width - 1 \<le> rx2 (geometry m)"
    and "ry1 (geometry m) \<le> y1" "y1 + height - 1 \<le> ry2 (geometry m)"
    and "pm_width (pixmap m) = r_width (geometry m)"
    and "pm_height (pixmap m) = r_height (geometry m)"
    and "\<forall>sd \<in> snd ` set (before @ after).
           r_isEmpty (intersected (QRect x1 y1 width height) (geometry sd))"
  shows "composite x1 y1 width height (before @ (i, m) # after)
       = crop (pixmap m) (x1 - rx1 (geometry m)) (y1 - ry1 (geometry m)) width height"
proof -
  let ?sel = "QRect x1 y1 width height"
  have b: "fold (composite_screen ?sel x1 y1) (map snd before) t = t" for t
    using assms(9) by (intro fold_skip blit_args_empty_overlap) auto
  have a: "fold (composite_screen ?sel x1 y1) (map snd after) t = t" for t
    using assms(9) by (intro fold_skip blit_args_empty_overlap) auto
  have "composite_screen ?sel x1 y1 m (transparent_pixmap width height)
      = crop (pixmap m) (x1 - rx1 (geometry m)) (y1 - ry1 (geometry m)) width height"
    by (simp add: composite_screen_def blit_args_inside[OF assms(1-8)] draw_on_transparent)
  then show ?thesis
    by (simp add: composite_fold a b)
qed

theorem composite_single_monitor_crop_witness:
  "rx1 (geometry left_monitor) \<le> 10 \<and> 10 + 30 - 1 \<le> rx2 (geometry left_monitor)
   \<and> ry1 (geometry left_monitor) \<le> 20 \<and> 20 + 40 - 1 \<le> ry2 (geometry left_monitor)
   \<and> pm_width (pixmap left_monitor) = r_width (geometry left_monitor)
   \<and> pm_height (pixmap left_monitor) = r_height (geometry left_monitor)
   \<and> composite 10 20 30 40 [(0, left_monitor), (1, right_monitor)]
       = crop (pixmap left_monitor) 10 20 30 40"
proof -
  have g: "rx1 (geometry left_monitor) \<le> 10" "10 + 30 - 1 \<le> rx2 (geometry left_monitor)"
    "ry1 (geometry left_monitor) \<le> 20" "20 + 40 - 1 \<le> ry2 (geometry left_monitor)"
    by (simp_all add: left_monitor_def QRect_def)
  have p: "pm_width (pixmap left_monitor) = r_width (geometry left_monitor)"
    "pm_height (pixmap left_monitor) = r_height (geometry left_monitor)"
    by (simp_all add: left_monitor_def QRect_def solid_def r_width_def r_height_def)
  have o: "\<forall>sd \<in> snd ` set ([] @ [(1::nat, right_monitor)]).
             r_isEmpty (intersected (QRect 10 20 30 40) (geometry sd))"
    by (simp add: right_monitor_def QRect_def intersected_def r_isNull_def
          r_left_def r_right_def r_top_def r_bottom_def r_isEmpty_def QRect0_def)
  have "composite 10 20 30 40 ([] @ (0, left_monitor) # [(1, right_monitor)])
      = crop (pixmap left_monitor) (10 - rx1 (geometry left_monitor))
          (20 - ry1 (geometry left_monitor)) 30 40"
    by (rule composite_single_monitor_crop [OF _ _ g p o]) simp_all
  moreover have "rx1 (geometry left_monitor) = 0" "ry1 (geometry left_monitor) = 0"
    by (simp_all add: left_monitor_def QRect_def)
  ultimately show ?thesis using g p by simp
qed

lemma composite_size:
  "pm_width (composite x1 y1 width height shots) = width
   \<and> pm_height (composite x1 y1 width height shots) = height"
proof -
  have "pm_width (fold (composite_screen sel x1 y1) ms t) = pm_width t
      \<and> pm_height (fold (composite_screen sel x1 y1) ms t) = pm_height t" for sel ms t
    by (induction ms arbitrary: t)
       (auto simp: composite_screen_def split: option.splits)
  then show ?thesis by (simp add: composite_fold transparent_pixmap_def)
qed

text \<open>
  C6.  A monitor whose source offsets fail the check of lines 617-619 (\<open>src_valid\<close>)
  gets no \<^verbatim>\<open>drawPixmap\<close> call; the composited image is the one the loop produces
  without that monitor, and it still has the size of the selection.  Whenever the loop
  does call \<^verbatim>\<open>drawPixmap\<close>, the source block lies inside the monitor's grab, so
  nothing is read outside a buffer.
\<close>

theorem composite_skips_invalid_source:
  assumes "overlap = intersected (QRect x1 y1 width height) (geometry m)"
    and "\<not> src_valid (rx1 overlap - rx1 (geometry m)) (ry1 overlap - ry1 (geometry m))
             overlap (pixmap m)"
  shows "blit_args (QRect x1 y1 width height) x1 y1 m = None
     \<and> composite x1 y1 width height (before @ (i, m) # after)
         = composite x1 y1 width height (before @ after)
     \<and> pm_width (composite x1 y1 width height (before @ (i, m) # after)) = width
     \<and> pm_height (composite x1 y1 width height (before @ (i, m) # after)) = height
     \<and> (\<forall>sd dst_x dst_y src_x src_y w h.
           blit_args (QRect x1 y1 width height) x1 y1 sd = Some (dst_x, dst_y, src_x, src_y, w, h)
           \<longrightarrow> 0 \<le> src_x \<and> 0 \<le> src_y
               \<and> src_x + w \<le> pm_width (pixmap sd) \<and> src_y + h \<le> pm_height (pixmap sd))"
proof -
  have n: "blit_args (QRect x1 y1 width height) x1 y1 m = None"
    using assms by (simp add: blit_args_def Let_def)
  then have "composite x1 y1 width height (before @ (i, m) # after)
         = composite x1 y1 width height (before @ after)"
    by (simp add: composite_fold composite_screen_skip)
  moreover have "\<forall>sd dst_x dst_y src_x src_y w h.
           blit_args (QRect x1 y1 width height) x1 y1 sd = Some (dst_x, dst_y, src_x, src_y, w, h)
           \<longrightarrow> 0 \<le> src_x \<and> 0 \<le> src_y
               \<and> src_x + w \<le> pm_width (pixmap sd) \<and> src_y + h \<le> pm_height (pixmap sd)"
    by (intro allI impI conjI)
       (erule blit_args_SomeD(9), erule blit_args_SomeD(10),
        erule blit_args_SomeD(11), erule blit_args_SomeD(12))
  ultimately show ?thesis using n composite_size by simp
qed

theorem composite_skips_invalid_source_witness:
  "\<not> src_valid
       (rx1 (intersected (QRect 50 10 100 50) (geometry short_grab_monitor))
          - rx1 (geometry short_grab_monitor))
       (ry1 (intersected (QRect 50 10 100 50) (geometry short_grab_monitor))
          - ry1 (geometry short_grab_monitor))
       (intersected (QRect 50 10 100 50) (geometry short_grab_monitor))
       (pixmap short_grab_monitor)
   \<and> blit_args (QRect 50 10 100 50) 50 10 short_grab_monitor = None
   \<and> composite 50 10 100 50 [(0, left_monitor), (1, short_grab_monitor)]
       = composite 50 10 100 50 [(0, left_monitor)]
   \<and> pm_width (composite 50 10 100 50 [(0, left_monitor), (1, short_grab_monitor)]) = 100
   \<and> pm_height (composite 50 10 100 50 [(0, left_monitor), (1, short_grab_monitor)]) = 50"
proof -
  have v: "\<not> src_valid
       (rx1 (intersected (QRect 50 10 100 50) (geometry short_grab_monitor))
          - rx1 (geometry short_grab_monitor))
       (ry1 (intersected (QRect 50 10 100 50) (geometry short_grab_monitor))
          - ry1 (geometry short_grab_monitor))
       (intersected (QRect 50 10 100 50) (geometry short_grab_monitor))
       (pixmap short_grab_monitor)"
    by (simp add: short_grab_monitor_def QRect_def intersected_def r_isNull_def solid_def
          r_left_def r_right_def r_top_def r_bottom_def src_valid_def r_width_def r_height_def)
  from v composite_skips_invalid_source
           [OF refl v, of "[(0, left_monitor)]" 1 "[]", unfolded append.simps]
  show ?thesis by blast
qed


section \<open>Sessions\<close>

text \<open>
  C1.  The claim: for all end points, \<^verbatim>\<open>finish_capture\<close> and
  \<^verbatim>\<open>capture_from_coordinates\<close> both use \<open>y2 = max (begin.y, end.y)\<close>, so the height
  is \<open>|end.y - begin.y|\<close>.  \<^verbatim>\<open>finish_capture\<close> does not: with begin (100, 200) and
  end (300, 50) it computes \<open>y2 = 50 = y1\<close> and a height of 0, where the claim and
  \<^verbatim>\<open>capture_from_coordinates\<close> give \<open>y2 = 200\<close> and a height of 150.
\<close>

theorem finish_capture_bounds_end_above_begin:
  "finish_capture_bounds \<lparr>px = 100, py = 200\<rparr> \<lparr>px = 300, py = 50\<rparr> = (100, 50, 300, 50)
   \<and> capture_from_coordinates_bounds \<lparr>px = 100, py = 200\<rparr> \<lparr>px = 300, py = 50\<rparr>
       = (100, 50, 300, 200)"
  by (simp add: finish_capture_bounds_def capture_from_coordinates_bounds_def)

text \<open>
  The normalisation of \<^verbatim>\<open>capture_from_coordinates\<close> is the one the claim states, and
  that of \<^verbatim>\<open>finish_capture\<close> agrees with it whenever the end point is not above the
  begin point.
\<close>

lemma capture_from_coordinates_bounds_normalised:
  "capture_from_coordinates_bounds b en
     = (min (px b) (px en), min (py b) (py en), max (px b) (px en), max (py b) (py en))"
  by (simp add: capture_from_coordinates_bounds_def)

lemma finish_capture_bounds_end_not_above:
  "py b \<le> py en \<Longrightarrow> finish_capture_bounds b en = capture_from_coordinates_bounds b en"
  by (simp add: finish_capture_bounds_def capture_from_coordinates_bounds_def)

lemmas session_defs =
  init_app_def after_capture_def one_screen_def second_screen_lost_def freehand_pressed_def
  fixed_armed_def solid_def start_freehand_capture_def start_fixed_capture_def
  create_overlays_def cleanup_overlays_def OverlayWidget_def dict_set_def
  mousePressEvent_def mouseReleaseEvent_def keyPressEvent_def finish_capture_def
  finish_capture_bounds_def QRect_def QPoint0_def pt_isNull_def pt_add_def topLeft_def
  bottomRight_def r_contains_def r_isNull_def r_left_def r_right_def r_top_def r_bottom_def
  Let_def

lemma filter_closed: "filter is_output (map OverlayClosed ns) = []"
  by (induction ns) simp_all

lemma filter_closed_overlay: "filter is_overlay_or_deferral (map OverlayClosed ns) = []"
  by (induction ns) simp_all

text \<open>
  C3.  When the normalised selection has width \<open>\<le> 10\<close> or height \<open>\<le> 10\<close>,
  \<^verbatim>\<open>finish_capture\<close> does nothing but close every overlay and show the main window:
  no compositing, no clipboard write, no file, no save dialog.  Afterwards there are no
  overlays, the busy flag is clear and the window is visible.  So compositing and
  delivery happen only when both width and height exceed 10.
\<close>

theorem finish_capture_rejects_small_selection:
  assumes "\<bar>px (global_end s) - px (global_begin s)\<bar> \<le> 10
         \<or> \<bar>py (global_end s) - py (global_begin s)\<bar> \<le> 10"
  shows "let (evs, s') = finish_capture e s
         in evs = map OverlayClosed [0..<length (overlays s)] @ [ShowWindow]
          \<and> filter is_output evs = []
          \<and> last_capture_pixmap s' = last_capture_pixmap s
          \<and> overlays s' = []
          \<and> \<not> is_overlay_operation_in_progress s'
          \<and> visible s'"
proof (cases "pt_isNull (global_begin s) \<or> pt_isNull (global_end s)")
  case True
  then show ?thesis
    by (simp add: finish_capture_def cleanup_overlays_def filter_closed Let_def)
next
  case False
  obtain x1 y1 x2 y2 where b: "finish_capture_bounds (global_begin s) (global_end s) = (x1, y1, x2, y2)"
    by (metis prod_cases4)
  have "\<not> (x2 - x1 > 10 \<and> y2 - y1 > 10)"
    using assms b by (auto simp: finish_capture_bounds_def Let_def split: if_splits)
  with False b show ?thesis
    by (simp add: finish_capture_def cleanup_overlays_def filter_closed Let_def)
qed

theorem finish_capture_rejects_small_selection_witness:
  "\<bar>px (global_end (freehand_pressed\<lparr>global_end := \<lparr>px = 110, py = 300\<rparr>\<rparr>))
      - px (global_begin (freehand_pressed\<lparr>global_end := \<lparr>px = 110, py = 300\<rparr>\<rparr>))\<bar> \<le> 10
   \<and> filter is_output
        (fst (finish_capture (one_screen \<lparr>px = 110, py = 300\<rparr>)
               (freehand_pressed\<lparr>global_end := \<lparr>px = 110, py = 300\<rparr>\<rparr>))) = []
   \<and> overlays
        (snd (finish_capture (one_screen \<lparr>px = 110, py = 300\<rparr>)
               (freehand_pressed\<lparr>global_end := \<lparr>px = 110, py = 300\<rparr>\<rparr>))) = []
   \<and> visible
        (snd (finish_capture (one_screen \<lparr>px = 110, py = 300\<rparr>)
               (freehand_pressed\<lparr>global_end := \<lparr>px = 110, py = 300\<rparr>\<rparr>)))"
proof -
  let ?s = "freehand_pressed\<lparr>global_end := \<lparr>px = 110, py = 300\<rparr>\<rparr>"
  have w: "\<bar>px (global_end ?s) - px (global_begin ?s)\<bar> \<le> 10"
    by (simp add: session_defs)
  then have h: "\<bar>px (global_end ?s) - px (global_begin ?s)\<bar> \<le> 10
         \<or> \<bar>py (global_end ?s) - py (global_begin ?s)\<bar> \<le> 10" ..
  from w finish_capture_rejects_small_selection
         [OF h, of "one_screen \<lparr>px = 110, py = 300\<rparr>", unfolded Let_def case_prod_beta]
  show ?thesis by blast
qed

text \<open>
  C10.  When either end point of the selection is the point (0, 0),
  \<^verbatim>\<open>finish_capture\<close> takes the branch of line 554: it closes the overlays and shows
  the window, composites nothing, delivers nothing and leaves the last capture as it
  was.  The point (0, 0) is what \<^verbatim>\<open>QPoint()\<close> and \<^verbatim>\<open>isNull\<close> stand for, so a
  selection that really starts at the origin of the desktop is dropped in the same way.
\<close>

theorem finish_capture_null_endpoint_aborts:
  assumes "global_begin s = \<lparr>px = 0, py = 0\<rparr> \<or> global_end s = \<lparr>px = 0, py = 0\<rparr>"
  shows "let (evs, s') = finish_capture e s
         in evs = map OverlayClosed [0..<length (overlays s)] @ [ShowWindow]
          \<and> filter is_output evs = []
          \<and> last_capture_begin s' = last_capture_begin s
          \<and> last_capture_end s' = last_capture_end s
          \<and> last_capture_pixmap s' = last_capture_pixmap s
          \<and> overlays s' = []
          \<and> \<not> is_overlay_operation_in_progress s'
          \<and> visible s'"
proof -
  have "pt_isNull (global_begin s) \<or> pt_isNull (global_end s)"
    using assms by (auto simp: pt_isNull_def)
  then show ?thesis
    by (simp add: finish_capture_def cleanup_overlays_def filter_closed Let_def)
qed

theorem finish_capture_null_endpoint_aborts_witness:
  "global_begin (fixed_armed\<lparr>global_begin := \<lparr>px = 0, py = 0\<rparr>,
                               global_end := \<lparr>px = 799, py = 599\<rparr>\<rparr>) = \<lparr>px = 0, py = 0\<rparr>
   \<and> filter is_output
        (fst (finish_capture (one_screen \<lparr>px = 400, py = 300\<rparr>)
               (fixed_armed\<lparr>global_begin := \<lparr>px = 0, py = 0\<rparr>,
                            global_end := \<lparr>px = 799, py = 599\<rparr>\<rparr>))) = []
   \<and> last_capture_begin
        (snd (finish_capture (one_screen \<lparr>px = 400, py = 300\<rparr>)
               (fixed_armed\<lparr>global_begin := \<lparr>px = 0, py = 0\<rparr>,
                            global_end := \<lparr>px = 799, py = 599\<rparr>\<rparr>))) = None
   \<and> overlays
        (snd (finish_capture (one_screen \<lparr>px = 400, py = 300\<rparr>)
               (fixed_armed\<lparr>global_begin := \<lparr>px = 0, py = 0\<rparr>,
                            global_end := \<lparr>px = 799, py = 599\<rparr>\<rparr>))) = []"
proof -
  let ?s = "fixed_armed\<lparr>global_begin := \<lparr>px = 0, py = 0\<rparr>,
                        global_end := \<lparr>px = 799, py = 599\<rparr>\<rparr>"
  have b: "global_begin ?s = \<lparr>px = 0, py = 0\<rparr>" by simp
  then have h: "global_begin ?s = \<lparr>px = 0, py = 0\<rparr> \<or> global_end ?s = \<lparr>px = 0, py = 0\<rparr>" ..
  have l: "last_capture_begin ?s = None" by (simp add: session_defs)
  from b l finish_capture_null_endpoint_aborts
         [OF h, of "one_screen \<lparr>px = 400, py = 300\<rparr>", unfolded Let_def case_prod_beta]
  show ?thesis by metis
qed

text \<open>
  Such a selection arises from an ordinary click: in a fixed-size session of 800 by 600
  on a screen at the origin, a click at (400, 300) sets the begin point to (0, 0), and
  the click produces no capture.
\<close>

lemma fixed_click_at_centre_is_dropped:
  "fst (mousePressEvent (one_screen \<lparr>px = 400, py = 300\<rparr>) 0 LeftButton fixed_armed)
     = [OverlayClosed 0, ShowWindow]"
  by (simp add: session_defs)




text \<open>
  Escape in a running session closes the overlays, clears the busy flag, shows the
  window, composites nothing and leaves the last capture alone.
\<close>

lemma keyPressEvent_escape:
  assumes "j < length (overlays s)" and "is_capturing s"
  shows "let (evs, s') = keyPressEvent j Key_Escape s
         in filter is_output evs = []
          \<and> last_capture_begin s' = last_capture_begin s
          \<and> last_capture_end s' = last_capture_end s
          \<and> last_capture_pixmap s' = last_capture_pixmap s
          \<and> overlays s' = []
          \<and> \<not> is_overlay_operation_in_progress s'
          \<and> visible s'"
  using assms by (simp add: keyPressEvent_def cleanup_overlays_def Let_def filter_closed)

text \<open>
  A release that \<^verbatim>\<open>mouseReleaseEvent\<close> itself rejects (width or height below 10)
  leaves the last capture alone as well.
\<close>

lemma mouseReleaseEvent_rejected_keeps_last_capture:
  assumes "j < length (overlays s)" and "is_capturing s"
    and "ov_mode (overlays s ! j) = Some Freehand" and "is_drawing (overlays s ! j)"
    and "- 10000 \<le> px (cursor_pos e)" and "- 10000 \<le> py (cursor_pos e)"
    and "\<bar>px (cursor_pos e) - px (global_begin s)\<bar> < 10
         \<or> \<bar>py (cursor_pos e) - py (global_begin s)\<bar> < 10"
  shows "let (evs, s') = mouseReleaseEvent e j LeftButton s
         in filter is_output evs = []
          \<and> last_capture_begin s' = last_capture_begin s
          \<and> last_capture_end s' = last_capture_end s
          \<and> last_capture_pixmap s' = last_capture_pixmap s"
  using assms
  by (auto simp add: mouseReleaseEvent_def cleanup_overlays_def Let_def filter_closed)

text \<open>
  C2.  The claim: a session that is cancelled or whose selection is too small leaves
  \<^verbatim>\<open>last_capture_begin\<close>, \<^verbatim>\<open>last_capture_end\<close> and \<^verbatim>\<open>last_capture_pixmap\<close> as
  they were.  \<^verbatim>\<open>finish_capture\<close> stores the two end points (lines 561-562) before
  it checks the size (line 581).  In a freehand session started with the last capture
  (10, 20) to (50, 70), a drag from (100, 100) to (110, 300) has width 10: it passes
  the check \<open>width < 10\<close> of \<^verbatim>\<open>mouseReleaseEvent\<close>, is rejected by \<open>width > 10\<close> in
  \<^verbatim>\<open>finish_capture\<close> with nothing composited or delivered, and the stored end points
  are now (100, 100) and (110, 300).
\<close>

theorem too_small_selection_overwrites_last_capture:
  "last_capture_begin freehand_pressed = Some \<lparr>px = 10, py = 20\<rparr>
   \<and> last_capture_end freehand_pressed = Some \<lparr>px = 50, py = 70\<rparr>
   \<and> (let (evs, s') = mouseReleaseEvent (one_screen \<lparr>px = 110, py = 300\<rparr>) 0 LeftButton
                            freehand_pressed
      in evs = [OverlayClosed 0, ShowWindow]
       \<and> last_capture_begin s' = Some \<lparr>px = 100, py = 100\<rparr>
       \<and> last_capture_end s' = Some \<lparr>px = 110, py = 300\<rparr>
       \<and> last_capture_pixmap s' = last_capture_pixmap freehand_pressed)"
  by (simp add: session_defs)

text \<open>
  Whatever branch \<^verbatim>\<open>finish_capture\<close> takes, it leaves no overlay, a clear busy flag
  and a visible window.
\<close>

lemma finish_capture_restores:
  "let (evs, s') = finish_capture e s
   in overlays s' = [] \<and> \<not> is_overlay_operation_in_progress s' \<and> visible s'"
  by (simp add: finish_capture_def cleanup_overlays_def Let_def split: prod.splits)

text \<open>When every screen can be grabbed, \<^verbatim>\<open>_create_overlays\<close> shows one overlay per
  screen and the session is capturing.\<close>

lemma create_loop_all_grabbed:
  assumes "\<forall>scr \<in> set scrs. grabWindow scr \<noteq> None"
  shows "\<exists>evs s'. create_loop mode w h i scrs s = Inr (evs, s')
           \<and> length (overlays s') = length (overlays s) + length scrs"
  using assms
proof (induction scrs arbitrary: i s)
  case Nil
  then show ?case by simp
next
  case (Cons scr scrs)
  then obtain pm where g: "grabWindow scr = Some pm" by auto
  let ?s2 = "s\<lparr>overlays := overlays s @ [OverlayWidget scr mode w h],
               screenshots := dict_set i \<lparr>geometry = scr_geometry scr, pixmap = pm\<rparr> (screenshots s),
               overlays := overlays s @ [(OverlayWidget scr mode w h)\<lparr>ov_visible := True\<rparr>]\<rparr>"
  from Cons.prems have "\<forall>scr \<in> set scrs. grabWindow scr \<noteq> None" by simp
  from Cons.IH [OF this, of "i + 1" ?s2]
  obtain evs s' where "create_loop mode w h (i + 1) scrs ?s2 = Inr (evs, s')"
    and "length (overlays s') = length (overlays ?s2) + length scrs" by blast
  then show ?case using g by (simp add: Let_def)
qed

text \<open>
  C4.  The claim: every exit path of a session, a failure of the overlay creation
  partway through included, ends with the busy flag clear, no overlay left and the
  window shown.  The handler of \<^verbatim>\<open>_create_overlays\<close> (lines 534-538) clears the flag
  and shows the window but does not call \<^verbatim>\<open>_cleanup_overlays\<close>.  On a desktop of two
  screens whose second screen cannot be grabbed, a freehand session ends with two
  overlays in \<^verbatim>\<open>self.overlays\<close>, the first of them shown on its screen; since
  \<^verbatim>\<open>is_capturing\<close> was never set, Escape on that overlay does nothing.
\<close>

theorem overlay_creation_failure_leaves_overlays:
  "(let (evs, s') = create_overlays second_screen_lost 800 600
                      (snd (start_freehand_capture (init_app ''/shots'')))
    in evs = [OverlayCreated 0, OverlayShown 0, OverlayCreated 1, ShowWindow]
     \<and> map ov_visible (overlays s') = [True, False]
     \<and> \<not> is_overlay_operation_in_progress s'
     \<and> visible s'
     \<and> \<not> is_capturing s'
     \<and> keyPressEvent 0 Key_Escape s' = ([], s'))"
  by (simp add: session_defs)


end
